theory Spec2Isabelle
  imports Complex_Main "HOL-Library.Multiset"
begin

section \<open>The world map creator: data model\<close>

text \<open>
  The package \<^verbatim>\<open>emissionsapi_worldmap_creator\<close> downloads measurement points,
  bins them on the H3 hexagonal grid, averages the values of every cell and masks the
  cells whose hexagon crosses the border of the map.

  Coordinates are modelled as exact reals. The measured values are of a type \<open>'v\<close>,
  the values of a numeric column: the package never computes with them itself, it hands
  them to the mean of pandas, which is a parameter of the model and does not raise on a
  numeric column; for float64 values that mean rounds, may depend on the order of the
  values, and skips NaN. Exceptions are values of \<open>error + 'a\<close>; an exception carries
  the name of its class. Logging is not modelled.
\<close>

datatype error = Error string

definition ValueError :: error where
  "ValueError = Error ''ValueError''"

definition OverflowError :: error where
  "OverflowError = Error ''OverflowError''"

definition KeyError :: error where
  "KeyError = Error ''KeyError''"

text \<open>
  The H3 library. \<^verbatim>\<open>h3.geo_to_h3(lat, lon, res)\<close> gives the key of the cell a
  point falls in, \<^verbatim>\<open>h3.h3_to_geo_boundary(h)\<close> the vertices of a cell as
  (lat, lon) pairs. Neither is code of this package, so both are parameters; either may
  raise. Cell keys are values of a linearly ordered type \<open>'c\<close> (H3 gives strings).
\<close>

record 'c indexer =
  geo_to_h3 :: "real \<Rightarrow> real \<Rightarrow> nat \<Rightarrow> error + 'c"
  h3_to_geo_boundary :: "'c \<Rightarrow> error + (real \<times> real) list"

text \<open>
  The pandas library: \<^verbatim>\<open>"mean"\<close>, the aggregation that
  \<^verbatim>\<open>prepare\<close> asks for, takes the values of one group in the order of their rows.
  It is not code of this package, so it is a parameter.
\<close>

record 'v pandas =
  mean :: "'v list \<Rightarrow> 'v"

text \<open>
  A row of the downloaded GeoDataFrame: a point geometry (\<open>x\<close> is the longitude,
  \<open>y\<close> the latitude) and the measured \<^verbatim>\<open>value\<close>. The frame is a mutable
  object; \<open>hex_col\<close> is its column \<^verbatim>\<open>"hex"\<close>, \<open>None\<close> while the frame
  has no such column. \<open>has_value\<close> tells whether the frame has a column
  \<^verbatim>\<open>"value"\<close> at all: the frame that \<^verbatim>\<open>geopandas.read_file\<close> builds from
  a feature collection without features has none, and then \<open>val\<close> is not read.
\<close>

record 'v point =
  x :: real
  y :: real
  val :: 'v

record ('c, 'v) frame =
  rows :: "'v point list"
  has_value :: bool
  hex_col :: "'c list option"

text \<open>
  A shapely polygon, by the coordinate sequence of its shell as it was handed to the
  constructor; the constructor refuses a shell of one or two coordinates and builds the
  empty polygon from none.
\<close>

datatype polygon = Polygon_of "(real \<times> real) list"

definition Polygon :: "(real \<times> real) list \<Rightarrow> error + polygon" where
  "Polygon shell =
     (if shell \<noteq> [] \<and> length shell < 3 then Inl ValueError else Inr (Polygon_of shell))"

fun coords :: "polygon \<Rightarrow> (real \<times> real) list" where
  "coords (Polygon_of shell) = shell"

text \<open>
  A row of the prepared frame: the columns \<^verbatim>\<open>hex\<close>, \<^verbatim>\<open>value\<close> and
  \<^verbatim>\<open>geometry\<close>. \<^verbatim>\<open>DataFrame.mask\<close> keeps a masked row in place and
  replaces all its entries by NaN/None: that row is \<open>None\<close> here.
\<close>

record ('c, 'v) cell =
  hex :: 'c
  mean_value :: 'v
  geometry :: polygon

type_synonym ('c, 'v) prepared = "('c, 'v) cell option list"

section \<open>The aggregator\<close>

definition RESOLUTION :: nat where
  "RESOLUTION = 4"

definition revert :: "(real \<times> real) list \<Rightarrow> (real \<times> real) list" where
  "revert polygon = map (\<lambda>(lat, lon). (lon, lat)) polygon"

text \<open>
  A list comprehension whose element expression may raise: the first exception leaves
  the comprehension, otherwise the list of all results is built.
\<close>

fun comprehension :: "('a \<Rightarrow> error + 'b) \<Rightarrow> 'a list \<Rightarrow> error + 'b list" where
  "comprehension f [] = Inr []"
| "comprehension f (a # as) =
     (case f a of
        Inl e \<Rightarrow> Inl e
      | Inr b \<Rightarrow> (case comprehension f as of Inl e \<Rightarrow> Inl e | Inr bs \<Rightarrow> Inr (b # bs)))"

text \<open>
  \<^verbatim>\<open>df.groupby("hex", as_index=False).agg({"value": "mean"})\<close>: one row per
  distinct key, in ascending order of the keys, with the mean, by pandas, of the values
  of the rows that carry the key, in the order of the rows. A group is never empty.
\<close>

definition groupby_mean :: "'v pandas \<Rightarrow> ('c::linorder \<times> 'v) list \<Rightarrow> ('c \<times> 'v) list" where
  "groupby_mean pd kvs =
     map (\<lambda>k. (k, mean pd (map snd (filter (\<lambda>kv. fst kv = k) kvs))))
       (sort (remdups (map fst kvs)))"

text \<open>
  \<^verbatim>\<open>GeoDataFrame.bounds\<close>: (minx, miny, maxx, maxy) of a geometry; the bounds
  of the empty polygon are NaN, so every comparison with them is false.
\<close>

definition bounds :: "polygon \<Rightarrow> (real \<times> real \<times> real \<times> real) option" where
  "bounds g =
     (if coords g = [] then None
      else Some (Min (set (map fst (coords g))), Min (set (map snd (coords g))),
                 Max (set (map fst (coords g))), Max (set (map snd (coords g)))))"

definition span_y_exceeds :: "polygon \<Rightarrow> bool" where
  "span_y_exceeds g =
     (case bounds g of None \<Rightarrow> False | Some (minx, miny, maxx, maxy) \<Rightarrow> maxy - miny > 180)"

definition span_x_exceeds :: "polygon \<Rightarrow> bool" where
  "span_x_exceeds g =
     (case bounds g of None \<Rightarrow> False | Some (minx, miny, maxx, maxy) \<Rightarrow> maxx - minx > 180)"

text \<open>\<^verbatim>\<open>df.mask(cond)\<close>: the rows where the condition holds become all-null rows.\<close>

definition mask :: "bool list \<Rightarrow> 'a option list \<Rightarrow> 'a option list" where
  "mask cond df = map (\<lambda>(c, r). if c then None else r) (zip cond df)"

text \<open>The stages of \<^verbatim>\<open>prepare\<close>, in the order of the source.\<close>

definition point_hex :: "'c indexer \<Rightarrow> 'v point \<Rightarrow> error + 'c" where
  "point_hex ix p = geo_to_h3 ix (y p) (x p) RESOLUTION"

definition hex_indices :: "'c indexer \<Rightarrow> 'v point list \<Rightarrow> error + 'c list" where
  "hex_indices ix ps = comprehension (point_hex ix) ps"

definition merged :: "'v pandas \<Rightarrow> 'c::linorder list \<Rightarrow> 'v point list \<Rightarrow> ('c \<times> 'v) list" where
  "merged pd hs ps = groupby_mean pd (zip hs (map val ps))"

definition polygons :: "'c indexer \<Rightarrow> 'c list \<Rightarrow> error + polygon list" where
  "polygons ix hs =
     (case comprehension (h3_to_geo_boundary ix) hs of
        Inl e \<Rightarrow> Inl e
      | Inr bs \<Rightarrow> comprehension (\<lambda>polygon. Polygon (revert polygon)) bs)"

definition with_geometry :: "('c \<times> 'v) list \<Rightarrow> polygon list \<Rightarrow> ('c, 'v) cell list" where
  "with_geometry agg gs =
     map (\<lambda>((h, v), g). \<lparr>hex = h, mean_value = v, geometry = g\<rparr>) (zip agg gs)"

definition remove_crossing :: "('c, 'v) cell list \<Rightarrow> ('c, 'v) prepared" where
  "remove_crossing cs =
     mask (map (\<lambda>c. span_x_exceeds (geometry c)) cs)
       (mask (map (\<lambda>c. span_y_exceeds (geometry c)) cs) (map Some cs))"

text \<open>
  \<^verbatim>\<open>prepare(df)\<close> returns the caller's frame as the call leaves it, and the
  prepared frame or the exception that left the call. The assignment
  \<^verbatim>\<open>df["hex"] = [...]\<close> writes to the caller's frame once the whole list has been
  built; every later statement rebinds the local name only. The aggregation of a frame
  without a column \<^verbatim>\<open>"value"\<close> raises \<^verbatim>\<open>KeyError\<close>. \<open>aggregate\<close> is
  the body of \<^verbatim>\<open>prepare\<close> up to the construction of the GeoDataFrame, before any
  row is masked.
\<close>

definition aggregate ::
  "'v pandas \<Rightarrow> 'c::linorder indexer \<Rightarrow> ('c, 'v) frame \<Rightarrow>
     ('c, 'v) frame \<times> (error + ('c, 'v) cell list)" where
  "aggregate pd ix df =
     (case hex_indices ix (rows df) of
        Inl e \<Rightarrow> (df, Inl e)
      | Inr hs \<Rightarrow>
          (let df' = df\<lparr>hex_col := Some hs\<rparr>
           in if \<not> has_value df then (df', Inl KeyError)
              else let agg = merged pd hs (rows df)
                   in case polygons ix (map fst agg) of
                        Inl e \<Rightarrow> (df', Inl e)
                      | Inr gs \<Rightarrow> (df', Inr (with_geometry agg gs))))"

definition prepare ::
  "'v pandas \<Rightarrow> 'c::linorder indexer \<Rightarrow> ('c, 'v) frame \<Rightarrow>
     ('c, 'v) frame \<times> (error + ('c, 'v) prepared)" where
  "prepare pd ix df =
     (case aggregate pd ix df of
        (df', Inl e) \<Rightarrow> (df', Inl e)
      | (df', Inr cs) \<Rightarrow> (df', Inr (remove_crossing cs)))"

section \<open>Days and their ISO format\<close>

text \<open>
  The \<^verbatim>\<open>day\<close> argument is a \<^verbatim>\<open>datetime.date\<close> (what the command line
  passes, from \<^verbatim>\<open>datetime.date.fromisoformat\<close>) or a naive
  \<^verbatim>\<open>datetime.datetime\<close> (what the docstrings announce). Both are modelled by
  their fields, with the ranges the constructors of the \<^verbatim>\<open>datetime\<close> module
  enforce.
\<close>

record date =
  year :: nat
  month :: nat
  day :: nat

record time =
  hour :: nat
  minute :: nat
  second :: nat
  microsecond :: nat

datatype moment = Date date | DateTime date time

definition is_leap :: "nat \<Rightarrow> bool" where
  "is_leap yr = (yr mod 4 = 0 \<and> (yr mod 100 \<noteq> 0 \<or> yr mod 400 = 0))"

definition days_in_month :: "nat \<Rightarrow> nat \<Rightarrow> nat" where
  "days_in_month yr m =
     (if m = 2 then (if is_leap yr then 29 else 28)
      else if m = 4 \<or> m = 6 \<or> m = 9 \<or> m = 11 then 30 else 31)"

definition MAXYEAR :: nat where
  "MAXYEAR = 9999"

definition valid_date :: "date \<Rightarrow> bool" where
  "valid_date d =
     (1 \<le> year d \<and> year d \<le> MAXYEAR \<and> 1 \<le> month d \<and> month d \<le> 12 \<and>
      1 \<le> day d \<and> day d \<le> days_in_month (year d) (month d))"

definition valid_time :: "time \<Rightarrow> bool" where
  "valid_time t =
     (hour t < 24 \<and> minute t < 60 \<and> second t < 60 \<and> microsecond t < 1000000)"

fun valid_moment :: "moment \<Rightarrow> bool" where
  "valid_moment (Date d) = valid_date d"
| "valid_moment (DateTime d t) = (valid_date d \<and> valid_time t)"

fun date_of :: "moment \<Rightarrow> date" where
  "date_of (Date d) = d"
| "date_of (DateTime d t) = d"

text \<open>
  \<^verbatim>\<open>date.toordinal()\<close>: the number of the day in the proleptic Gregorian
  calendar, where 1 January of year 1 is day 1. The table of the days before a month is
  indexed by the month; its entry 0 is never read.
\<close>

definition days_before_year :: "nat \<Rightarrow> nat" where
  "days_before_year yr =
     365 * (yr - 1) + (yr - 1) div 4 - (yr - 1) div 100 + (yr - 1) div 400"

definition days_before_month :: "nat \<Rightarrow> nat \<Rightarrow> nat" where
  "days_before_month yr m =
     [0, 0, 31, 59, 90, 120, 151, 181, 212, 243, 273, 304, 334] ! m +
     (if m > 2 \<and> is_leap yr then 1 else 0)"

definition toordinal :: "date \<Rightarrow> nat" where
  "toordinal d = days_before_year (year d) + days_before_month (year d) (month d) + day d"

text \<open>
  \<^verbatim>\<open>datetime.timedelta(days=1) + day\<close>: the next calendar day, at the same time
  of day; past 31 December 9999 the addition raises \<^verbatim>\<open>OverflowError\<close>.
\<close>

definition add_day :: "date \<Rightarrow> error + date" where
  "add_day d =
     (if day d < days_in_month (year d) (month d) then Inr (d\<lparr>day := day d + 1\<rparr>)
      else if month d < 12 then Inr (d\<lparr>month := month d + 1, day := 1\<rparr>)
      else if year d < MAXYEAR then Inr \<lparr>year = year d + 1, month = 1, day = 1\<rparr>
      else Inl OverflowError)"

fun plus_one_day :: "moment \<Rightarrow> error + moment" where
  "plus_one_day (Date d) = (case add_day d of Inl e \<Rightarrow> Inl e | Inr d' \<Rightarrow> Inr (Date d'))"
| "plus_one_day (DateTime d t) =
     (case add_day d of Inl e \<Rightarrow> Inl e | Inr d' \<Rightarrow> Inr (DateTime d' t))"

text \<open>
  \<^verbatim>\<open>isoformat()\<close>: \<^verbatim>\<open>%04d-%02d-%02d\<close> for a date; for a datetime the
  date, the separator \<^verbatim>\<open>T\<close>, \<^verbatim>\<open>%02d:%02d:%02d\<close> and, when the
  microsecond is not zero, \<^verbatim>\<open>.%06d\<close>.
\<close>

definition digit :: "nat \<Rightarrow> char" where
  "digit n = ''0123456789'' ! n"

fun decimal :: "nat \<Rightarrow> string" where
  "decimal n = (if n < 10 then [digit n] else decimal (n div 10) @ [digit (n mod 10)])"

definition zero_pad :: "nat \<Rightarrow> nat \<Rightarrow> string" where
  "zero_pad w n = replicate (w - length (decimal n)) (CHR ''0'') @ decimal n"

definition date_isoformat :: "date \<Rightarrow> string" where
  "date_isoformat d =
     zero_pad 4 (year d) @ ''-'' @ zero_pad 2 (month d) @ ''-'' @ zero_pad 2 (day d)"

definition time_isoformat :: "time \<Rightarrow> string" where
  "time_isoformat t =
     zero_pad 2 (hour t) @ '':'' @ zero_pad 2 (minute t) @ '':'' @ zero_pad 2 (second t) @
     (if microsecond t = 0 then [] else ''.'' @ zero_pad 6 (microsecond t))"

fun isoformat :: "moment \<Rightarrow> string" where
  "isoformat (Date d) = date_isoformat d"
| "isoformat (DateTime d t) = date_isoformat d @ ''T'' @ time_isoformat t"

text \<open>The time of day of a datetime, and the last day a date can hold.\<close>

fun time_of :: "moment \<Rightarrow> time option" where
  "time_of (Date d) = None"
| "time_of (DateTime d t) = Some t"

definition last_day :: date where
  "last_day = \<lparr>year = 9999, month = 12, day = 31\<rparr>"

section \<open>Fetcher, cache and \<^verbatim>\<open>get_points\<close>\<close>

text \<open>
  The outside world: the files of the working directory, by name, and the trace of the
  calls the package has made to the file system and the network.
  \<^verbatim>\<open>geopandas.read_file\<close> and \<^verbatim>\<open>GeoDataFrame.to_file\<close> are not code
  of this package: what a URL answers, how a file decodes and how a frame encodes are
  parameters. A write that raises may leave nothing or a partial file behind.
\<close>

datatype event = PathExists string | ReadFile string | ToFile string | ReadUrl string

record 'f world =
  files :: "string \<rightharpoonup> 'f"
  trace :: "event list"

datatype 'f written = Written 'f | Failed "'f option" error

record ('c, 'v, 'f) geopandas =
  read_url :: "string \<Rightarrow> error + ('c, 'v) frame"
  read_path :: "'f \<Rightarrow> error + ('c, 'v) prepared"
  to_file :: "('c, 'v) prepared \<Rightarrow> 'f written"

definition emit :: "event \<Rightarrow> 'f world \<Rightarrow> 'f world" where
  "emit ev w = w\<lparr>trace := trace w @ [ev]\<rparr>"

definition request_url :: "string \<Rightarrow> string \<Rightarrow> moment \<Rightarrow> moment \<Rightarrow> string" where
  "request_url url product begin_day end_day =
     url @ ''/api/v2/'' @ product @ ''/geo.json'' @
     ''?begin='' @ isoformat begin_day @ ''&end='' @ isoformat end_day"

definition download_points ::
  "('c, 'v, 'f) geopandas \<Rightarrow> string \<Rightarrow> string \<Rightarrow> moment \<Rightarrow> 'f world \<Rightarrow>
     'f world \<times> (error + ('c, 'v) frame)" where
  "download_points gp url product d w =
     (case plus_one_day d of
        Inl e \<Rightarrow> (w, Inl e)
      | Inr d' \<Rightarrow>
          (emit (ReadUrl (request_url url product d d')) w,
           read_url gp (request_url url product d d')))"

definition cache_filename :: "string \<Rightarrow> moment \<Rightarrow> string" where
  "cache_filename product d = ''cache-'' @ product @ ''-'' @ isoformat d"

definition cache_load ::
  "('c, 'v, 'f) geopandas \<Rightarrow> string \<Rightarrow> moment \<Rightarrow> 'f world \<Rightarrow>
     'f world \<times> (error + ('c, 'v) prepared option)" where
  "cache_load gp product d w =
     (let fn = cache_filename product d;
          w1 = emit (PathExists fn) w
      in case files w1 fn of
           None \<Rightarrow> (w1, Inr None)
         | Some content \<Rightarrow>
             (emit (ReadFile fn) w1,
              case read_path gp content of Inl e \<Rightarrow> Inl e | Inr df \<Rightarrow> Inr (Some df)))"

definition cache_save ::
  "('c, 'v, 'f) geopandas \<Rightarrow> ('c, 'v) prepared \<Rightarrow> string \<Rightarrow> moment \<Rightarrow> 'f world \<Rightarrow>
     'f world \<times> (error + unit)" where
  "cache_save gp df product d w =
     (let fn = cache_filename product d;
          w1 = emit (ToFile fn) w
      in case to_file gp df of
           Written content \<Rightarrow> (w1\<lparr>files := (files w1)(fn \<mapsto> content)\<rparr>, Inr ())
         | Failed None e \<Rightarrow> (w1, Inl e)
         | Failed (Some partial) e \<Rightarrow> (w1\<lparr>files := (files w1)(fn \<mapsto> partial)\<rparr>, Inl e))"

definition get_points ::
  "('c::linorder, 'v, 'f) geopandas \<Rightarrow> 'v pandas \<Rightarrow> 'c indexer \<Rightarrow> string \<Rightarrow> string \<Rightarrow>
     moment \<Rightarrow> bool \<Rightarrow> 'f world \<Rightarrow> 'f world \<times> (error + ('c, 'v) prepared)" where
  "get_points gp pd ix url product d cache w =
     (case (if cache then cache_load gp product d w else (w, Inr None)) of
        (w1, Inl e) \<Rightarrow> (w1, Inl e)
      | (w1, Inr (Some df)) \<Rightarrow> (w1, Inr df)
      | (w1, Inr None) \<Rightarrow>
          (case download_points gp url product d w1 of
             (w2, Inl e) \<Rightarrow> (w2, Inl e)
           | (w2, Inr raw) \<Rightarrow>
               (case snd (prepare pd ix raw) of
                  Inl e \<Rightarrow> (w2, Inl e)
                | Inr df \<Rightarrow>
                    if cache
                    then (case cache_save gp df product d w2 of
                            (w3, Inl e) \<Rightarrow> (w3, Inl e)
                          | (w3, Inr u) \<Rightarrow> (w3, Inr df))
                    else (w2, Inr df))))"

section \<open>Notions used to state the properties\<close>

text \<open>
  The cells occupied by a list of points, the points of a cell in the order of the input,
  the arithmetic mean of a multiset of real values (a multiset forgets the order), the
  rows of a prepared frame that are not masked, a prepared frame without its mean values,
  and the test of the antimeridian filter on a polygon whose coordinates are
  (longitude, latitude) pairs.
\<close>

definition occupied :: "'c indexer \<Rightarrow> 'v point list \<Rightarrow> 'c set" where
  "occupied ix ps = {k. \<exists>p\<in>set ps. point_hex ix p = Inr k}"

definition points_in :: "'c indexer \<Rightarrow> 'c \<Rightarrow> 'v point list \<Rightarrow> 'v point list" where
  "points_in ix k ps = filter (\<lambda>p. point_hex ix p = Inr k) ps"

definition arithmetic_mean :: "real multiset \<Rightarrow> real" where
  "arithmetic_mean M = sum_mset M / real (size M)"

definition without_means :: "('c, 'v) prepared \<Rightarrow> ('c \<times> polygon) option list" where
  "without_means df = map (map_option (\<lambda>c. (hex c, geometry c))) df"

definition present :: "('c, 'v) prepared \<Rightarrow> ('c, 'v) cell list" where
  "present df = map the (filter (\<lambda>r. r \<noteq> None) df)"

definition crosses :: "polygon \<Rightarrow> bool" where
  "crosses g =
     (coords g \<noteq> [] \<and>
      (Max (set (map fst (coords g))) - Min (set (map fst (coords g))) > 180 \<or>
       Max (set (map snd (coords g))) - Min (set (map snd (coords g))) > 180))"

text \<open>
  The two ISO 8601 shapes: a calendar date \<^verbatim>\<open>YYYY-MM-DD\<close>, and a date-time, which
  is a calendar date, the designator \<^verbatim>\<open>T\<close> and a time \<^verbatim>\<open>hh:mm:ss\<close> with
  an optional fraction of six digits.
\<close>

definition is_digit :: "char \<Rightarrow> bool" where
  "is_digit c = (c \<in> set ''0123456789'')"

definition iso_date :: "string \<Rightarrow> bool" where
  "iso_date s =
     (length s = 10 \<and> list_all is_digit (take 4 s) \<and> s ! 4 = CHR ''-'' \<and>
      list_all is_digit (take 2 (drop 5 s)) \<and> s ! 7 = CHR ''-'' \<and>
      list_all is_digit (drop 8 s))"

definition iso_time :: "string \<Rightarrow> bool" where
  "iso_time s =
     (list_all is_digit (take 2 s) \<and> s ! 2 = CHR '':'' \<and>
      list_all is_digit (take 2 (drop 3 s)) \<and> s ! 5 = CHR '':'' \<and>
      list_all is_digit (take 2 (drop 6 s)) \<and>
      (length s = 8 \<or>
       length s = 15 \<and> s ! 8 = CHR ''.'' \<and> list_all is_digit (drop 9 s)))"

definition iso_datetime :: "string \<Rightarrow> bool" where
  "iso_datetime s =
     (iso_date (take 10 s) \<and> 10 < length s \<and> s ! 10 = CHR ''T'' \<and> iso_time (drop 11 s))"

section \<open>Example inputs\<close>

text \<open>
  An indexer for the examples: the cells are meridional strips two degrees wide, cell
  \<open>k\<close> reaching from longitude \<open>2k - 1\<close> to \<open>2k + 1\<close>. Like
  \<^verbatim>\<open>h3.geo_to_h3\<close> it answers for every pair of finite coordinates. The strip
  around the antimeridian has its eastern vertices at longitude -179, as the H3 cells
  there have.
\<close>

definition wrap_lon :: "real \<Rightarrow> real" where
  "wrap_lon l = (if l > 180 then l - 360 else l)"

definition strip_boundary :: "int \<Rightarrow> (real \<times> real) list" where
  "strip_boundary k =
     [(-90, wrap_lon (2 * of_int k - 1)), (90, wrap_lon (2 * of_int k - 1)),
      (90, wrap_lon (2 * of_int k + 1)), (-90, wrap_lon (2 * of_int k + 1))]"

definition strip_ix :: "int indexer" where
  "strip_ix =
     \<lparr>geo_to_h3 = (\<lambda>lat lon res. Inr \<lfloor>(lon + 1) / 2\<rfloor>),
      h3_to_geo_boundary = (\<lambda>k. Inr (strip_boundary k))\<rparr>"

text \<open>The same grid behind an indexer that refuses coordinates out of range.\<close>

definition checking_ix :: "int indexer" where
  "checking_ix =
     \<lparr>geo_to_h3 = (\<lambda>lat lon res.
        if \<bar>lat\<bar> > 90 \<or> \<bar>lon\<bar> > 180 then Inl (Error ''InvalidPointError'')
        else Inr \<lfloor>(lon + 1) / 2\<rfloor>),
      h3_to_geo_boundary = (\<lambda>k. Inr (strip_boundary k))\<rparr>"

definition pt :: "real \<Rightarrow> real \<Rightarrow> real \<Rightarrow> real point" where
  "pt lat lon v = \<lparr>x = lon, y = lat, val = v\<rparr>"

definition downloaded :: "real point list \<Rightarrow> (int, real) frame" where
  "downloaded ps = \<lparr>rows = ps, has_value = True, hex_col = None\<rparr>"

text \<open>
  A pandas for the examples, on float64 values that are neither NaN nor infinite, each
  given by the real it denotes: the mean adds the values in the order of the rows and
  divides by their number, and every operation rounds its exact result to the nearest
  double, ties to the even significand (IEEE 754 binary64, 53 bits; overflow and
  subnormal numbers are left out). \<open>binade r\<close> is the exponent of the power of two at or
  below \<open>\<bar>r\<bar>\<close>.
\<close>

definition round_half_even :: "real \<Rightarrow> int" where
  "round_half_even r =
     (let f = \<lfloor>r\<rfloor>
      in if r - of_int f < 1 / 2 then f
         else if 1 / 2 < r - of_int f then f + 1
         else if even f then f else f + 1)"

fun halvings :: "nat \<Rightarrow> real \<Rightarrow> nat" where
  "halvings 0 r = 0"
| "halvings (Suc n) r = (if r < 2 then 0 else Suc (halvings n (r / 2)))"

fun doublings :: "nat \<Rightarrow> real \<Rightarrow> nat" where
  "doublings 0 r = 0"
| "doublings (Suc n) r = (if 1 \<le> r then 0 else Suc (doublings n (r * 2)))"

definition binade :: "real \<Rightarrow> int" where
  "binade r =
     (if 1 \<le> \<bar>r\<bar> then int (halvings 1024 \<bar>r\<bar>) else - int (doublings 1022 \<bar>r\<bar>))"

definition fl :: "real \<Rightarrow> real" where
  "fl r =
     (if r = 0 then 0
      else of_int (round_half_even (r / 2 powi (binade r - 52))) * 2 powi (binade r - 52))"

definition float64_mean :: "real list \<Rightarrow> real" where
  "float64_mean vs = fl (foldl (\<lambda>s v. fl (s + v)) 0 vs / real (length vs))"

definition float64 :: "real pandas" where
  "float64 = \<lparr>mean = float64_mean\<rparr>"

text \<open>
  The same with the sum that newer versions of pandas compute for a group: every value
  is added together with a compensation term, the rounding error of the additions before
  it (Kahan summation).
\<close>

definition compensated_add :: "real \<times> real \<Rightarrow> real \<Rightarrow> real \<times> real" where
  "compensated_add sc v =
     (let y = fl (v - snd sc); t = fl (fst sc + y) in (t, fl (fl (t - fst sc) - y)))"

definition float64_compensated_mean :: "real list \<Rightarrow> real" where
  "float64_compensated_mean vs =
     fl (fst (foldl compensated_add (0, 0) vs) / real (length vs))"

definition float64_compensated :: "real pandas" where
  "float64_compensated = \<lparr>mean = float64_compensated_mean\<rparr>"

text \<open>
  A geopandas for the examples: every URL answers with the same two points, and a file
  holds the prepared frame itself. The world starts with no file and an empty trace.
\<close>

definition example_gp :: "(int, real, (int, real) prepared) geopandas" where
  "example_gp =
     \<lparr>read_url = (\<lambda>u. Inr (downloaded [pt 0 10 10, pt 0 10.5 20])),
      read_path = Inr,
      to_file = Written\<rparr>"

definition empty_world :: "(int, real) prepared world" where
  "empty_world = \<lparr>files = Map.empty, trace = []\<rparr>"

section \<open>Auxiliary facts\<close>

lemma comprehension_InrD:
  "comprehension f xs = Inr ys \<Longrightarrow> map f xs = map Inr ys"
  by (induction xs arbitrary: ys) (auto split: sum.splits)

lemma comprehension_Inl_mem:
  "comprehension f xs = Inl e \<Longrightarrow> \<exists>a\<in>set xs. f a = Inl e"
  by (induction xs) (auto split: sum.splits)

lemma comprehension_fails_iff:
  "(\<exists>e. comprehension f xs = Inl e) \<longleftrightarrow> (\<exists>a\<in>set xs. isl (f a))"
  by (induction xs) (auto split: sum.splits simp: isl_def)

lemma comprehension_first_failure:
  assumes "\<forall>a\<in>set as. \<not> isl (f a)" and "f b = Inl e"
  shows "comprehension f (as @ b # bs) = Inl e"
  using assms by (induction as) (auto split: sum.splits)

lemma comprehension_projr:
  assumes "comprehension f xs = Inr ys"
  shows "ys = map (\<lambda>a. projr (f a)) xs" and "\<forall>a\<in>set xs. f a = Inr (projr (f a))"
  using assms by (induction xs arbitrary: ys) (auto split: sum.splits)

lemma comprehension_total:
  "(\<forall>a\<in>set xs. \<not> isl (f a)) \<Longrightarrow> comprehension f xs = Inr (map (\<lambda>a. projr (f a)) xs)"
  by (induction xs) (auto split: sum.splits)

lemma keys_groupby_mean: "map fst (groupby_mean pd kvs) = sort (remdups (map fst kvs))"
  by (simp add: groupby_mean_def comp_def)

lemma sort_remdups_set: "sort (remdups xs) = sorted_list_of_set (set xs)"
  by (simp add: sorted_list_of_set_sort_remdups)

lemma groupby_keys_mset:
  assumes "mset kvs = mset kvs'"
  shows "map fst (groupby_mean pd kvs) = map fst (groupby_mean pd kvs')"
proof -
  have "set (map fst kvs) = set (map fst kvs')"
    using assms by (metis mset_eq_setD set_map)
  then show ?thesis
    by (simp only: keys_groupby_mean sort_remdups_set)
qed

lemma groupby_mean_mset:
  assumes "mset kvs = mset kvs'"
    and "\<forall>xs ys. mset xs = mset ys \<longrightarrow> mean pd xs = mean pd ys"
  shows "groupby_mean pd kvs = groupby_mean pd kvs'"
proof -
  have k: "sort (remdups (map fst kvs)) = sort (remdups (map fst kvs'))"
    using groupby_keys_mset [OF assms(1)] by (simp only: keys_groupby_mean)
  have "mset (map snd (filter P kvs)) = mset (map snd (filter P kvs'))" for P
    using assms(1) by simp
  with assms(2) have "mean pd (map snd (filter P kvs)) = mean pd (map snd (filter P kvs'))" for P
    by blast
  then show ?thesis
    by (simp add: groupby_mean_def k)
qed

lemma hex_indices_merged:
  assumes "hex_indices ix ps = Inr hs"
  shows "merged pd hs ps = groupby_mean pd (map (\<lambda>p. (projr (point_hex ix p), val p)) ps)"
proof -
  have "hs = map (\<lambda>p. projr (point_hex ix p)) ps"
    using assms comprehension_projr(1) unfolding hex_indices_def by blast
  then show ?thesis
    by (simp add: merged_def zip_map_map zip_same_conv_map comp_def)
qed

lemma hex_indices_set:
  assumes "hex_indices ix ps = Inr hs"
  shows "set hs = occupied ix ps"
proof -
  have "map (point_hex ix) ps = map Inr hs"
    using assms unfolding hex_indices_def by (rule comprehension_InrD)
  then have "Inr ` set hs = point_hex ix ` set ps"
    by (metis set_map)
  then show ?thesis
    unfolding occupied_def by (auto simp: image_iff) (metis image_iff sum.inject(2))+
qed

lemma in_groupby_mean:
  "(k, v) \<in> set (groupby_mean pd kvs) \<longleftrightarrow>
     k \<in> fst ` set kvs \<and> v = mean pd (map snd (filter (\<lambda>kv. fst kv = k) kvs))"
  by (auto simp: groupby_mean_def)

lemma group_values:
  assumes "hex_indices ix ps = Inr hs"
  shows "map snd (filter (\<lambda>kv. fst kv = k) (map (\<lambda>p. (projr (point_hex ix p), val p)) ps))
         = map val (filter (\<lambda>p. point_hex ix p = Inr k) ps)"
proof -
  have a: "\<forall>p\<in>set ps. point_hex ix p = Inr (projr (point_hex ix p))"
    using assms comprehension_projr(2) unfolding hex_indices_def by blast
  have "filter (\<lambda>p. projr (point_hex ix p) = k) ps = filter (\<lambda>p. point_hex ix p = Inr k) ps"
    by (rule filter_cong) (use a in auto)
  then show ?thesis
    by (simp add: filter_map comp_def)
qed

lemma polygons_length: "polygons ix hs = Inr gs \<Longrightarrow> length gs = length hs"
  by (auto simp: polygons_def split: sum.splits dest!: comprehension_InrD) (metis length_map)

lemma span_crosses: "(span_x_exceeds g \<or> span_y_exceeds g) = crosses g"
  by (auto simp: span_x_exceeds_def span_y_exceeds_def crosses_def bounds_def)

lemma remove_crossing_eq:
  "remove_crossing cs = map (\<lambda>c. if crosses (geometry c) then None else Some c) cs"
  by (auto simp: remove_crossing_def mask_def zip_map1 zip_map2 zip_same_conv_map span_crosses [symmetric])

lemma aggregate_Inr:
  assumes "snd (aggregate pd ix df) = Inr cs"
  obtains hs gs where "hex_indices ix (rows df) = Inr hs"
    and "polygons ix (map fst (merged pd hs (rows df))) = Inr gs"
    and "cs = with_geometry (merged pd hs (rows df)) gs"
    and "fst (aggregate pd ix df) = df\<lparr>hex_col := Some hs\<rparr>"
    and "has_value df"
  using assms by (auto simp: aggregate_def Let_def split: sum.splits if_splits)

lemma with_geometry_keys:
  "length gs = length agg \<Longrightarrow> map hex (with_geometry agg gs) = map fst agg"
  by (auto simp: with_geometry_def intro!: nth_equalityI split: prod.splits)

lemma with_geometry_geometry:
  "length gs = length agg \<Longrightarrow> map geometry (with_geometry agg gs) = gs"
  by (auto simp: with_geometry_def intro!: nth_equalityI split: prod.splits)

lemma with_geometry_mem:
  "c \<in> set (with_geometry agg gs) \<Longrightarrow> (hex c, mean_value c) \<in> set agg"
  by (auto simp: with_geometry_def dest: set_zip_leftD)

lemma prepare_aggregate:
  "snd (prepare pd ix df) =
     (case snd (aggregate pd ix df) of Inl e \<Rightarrow> Inl e | Inr cs \<Rightarrow> Inr (remove_crossing cs))"
  "fst (prepare pd ix df) = fst (aggregate pd ix df)"
  by (auto simp: prepare_def split: prod.splits sum.splits)

lemma remove_crossing_mem: "Some c \<in> set (remove_crossing cs) \<Longrightarrow> c \<in> set cs"
  by (auto simp: remove_crossing_eq split: if_splits)

lemma present_remove_crossing:
  "present (remove_crossing cs) = filter (\<lambda>c. \<not> crosses (geometry c)) cs"
  by (induction cs) (simp_all add: remove_crossing_eq present_def)

lemma without_means_remove_crossing:
  "without_means (remove_crossing cs) =
     map (\<lambda>(k, g). if crosses g then None else Some (k, g)) (zip (map hex cs) (map geometry cs))"
  by (induction cs) (simp_all add: remove_crossing_eq without_means_def)

lemma hex_indices_perm:
  assumes "mset ps' = mset ps" and "hex_indices ix ps = Inr hs"
  shows "hex_indices ix ps' = Inr (map (\<lambda>p. projr (point_hex ix p)) ps')"
proof -
  have "\<forall>p\<in>set ps. point_hex ix p = Inr (projr (point_hex ix p))"
    using assms(2) comprehension_projr(2) unfolding hex_indices_def by blast
  moreover have "set ps' = set ps"
    using assms(1) by (rule mset_eq_setD)
  ultimately have "\<forall>p\<in>set ps'. \<not> isl (point_hex ix p)"
    by (metis sum.disc(2))
  then show ?thesis
    unfolding hex_indices_def by (rule comprehension_total)
qed

lemma cell_mean:
  assumes "snd (aggregate pd ix df) = Inr cs" and "c \<in> set cs"
  shows "points_in ix (hex c) (rows df) \<noteq> [] \<and>
         mean_value c = mean pd (map val (points_in ix (hex c) (rows df)))"
proof -
  from assms(1) obtain hs gs where hs: "hex_indices ix (rows df) = Inr hs"
    and c: "cs = with_geometry (merged pd hs (rows df)) gs"
    by (rule aggregate_Inr)
  let ?kvs = "map (\<lambda>p. (projr (point_hex ix p), val p)) (rows df)"
  from assms(2) c have "(hex c, mean_value c) \<in> set (merged pd hs (rows df))"
    by (auto dest: with_geometry_mem)
  then have m: "(hex c, mean_value c) \<in> set (groupby_mean pd ?kvs)"
    by (simp add: hex_indices_merged [OF hs])
  then have "hex c \<in> fst ` set ?kvs"
    by (simp add: in_groupby_mean)
  then have "hex c \<in> set hs"
    using comprehension_projr(1) [OF hs [unfolded hex_indices_def]] by (simp add: image_image)
  then have "hex c \<in> occupied ix (rows df)"
    by (simp add: hex_indices_set [OF hs])
  then have ne: "points_in ix (hex c) (rows df) \<noteq> []"
    by (auto simp: points_in_def occupied_def filter_empty_conv)
  from m have "mean_value c = mean pd (map snd (filter (\<lambda>kv. fst kv = hex c) ?kvs))"
    by (simp add: in_groupby_mean)
  also have "\<dots> = mean pd (map val (points_in ix (hex c) (rows df)))"
    by (simp only: group_values [OF hs] points_in_def)
  finally show ?thesis
    using ne by simp
qed

lemma aggregate_perm:
  assumes "mset ps' = mset (rows df)" and "snd (aggregate pd ix df) = Inr cs"
  shows "\<exists>cs'. snd (aggregate pd ix (df\<lparr>rows := ps'\<rparr>)) = Inr cs' \<and>
           map hex cs' = map hex cs \<and> map geometry cs' = map geometry cs \<and>
           ((\<forall>xs ys. mset xs = mset ys \<longrightarrow> mean pd xs = mean pd ys) \<longrightarrow> cs' = cs)"
proof -
  from assms(2) obtain hs gs where hs: "hex_indices ix (rows df) = Inr hs"
    and gs: "polygons ix (map fst (merged pd hs (rows df))) = Inr gs"
    and c: "cs = with_geometry (merged pd hs (rows df)) gs"
    and v: "has_value df"
    by (rule aggregate_Inr)
  let ?hs' = "map (\<lambda>p. projr (point_hex ix p)) ps'"
  let ?agg = "merged pd hs (rows df)"
  let ?agg' = "merged pd ?hs' ps'"
  have hs': "hex_indices ix ps' = Inr ?hs'"
    using assms(1) hs by (rule hex_indices_perm)
  have m: "mset (map (\<lambda>p. (projr (point_hex ix p), val p)) ps')
        = mset (map (\<lambda>p. (projr (point_hex ix p), val p)) (rows df))"
    using assms(1) by simp
  have k: "map fst ?agg' = map fst ?agg"
    unfolding hex_indices_merged [OF hs] hex_indices_merged [OF hs'] using m
    by (rule groupby_keys_mset)
  have len: "length gs = length ?agg"
    using polygons_length [OF gs] by simp
  have "length ?agg' = length ?agg"
    using k by (rule map_eq_imp_length_eq)
  with len have len': "length gs = length ?agg'"
    by simp
  have gs': "polygons ix (map fst ?agg') = Inr gs"
    using gs by (simp only: k)
  have a: "snd (aggregate pd ix (df\<lparr>rows := ps'\<rparr>)) = Inr (with_geometry ?agg' gs)"
    unfolding aggregate_def using hs' gs' v by (simp add: Let_def)
  have e: "?agg' = ?agg" if "\<forall>xs ys. mset xs = mset ys \<longrightarrow> mean pd xs = mean pd ys"
    unfolding hex_indices_merged [OF hs] hex_indices_merged [OF hs'] using m that
    by (rule groupby_mean_mset)
  have k1: "map hex (with_geometry ?agg' gs) = map hex cs"
    unfolding c by (simp only: with_geometry_keys [OF len] with_geometry_keys [OF len'] k)
  have g1: "map geometry (with_geometry ?agg' gs) = map geometry cs"
    unfolding c by (simp only: with_geometry_geometry [OF len] with_geometry_geometry [OF len'])
  have e1: "(\<forall>xs ys. mset xs = mset ys \<longrightarrow> mean pd xs = mean pd ys) \<longrightarrow>
      with_geometry ?agg' gs = cs"
  proof
    assume "\<forall>xs ys. mset xs = mset ys \<longrightarrow> mean pd xs = mean pd ys"
    then have "?agg' = ?agg"
      by (rule e)
    then show "with_geometry ?agg' gs = cs"
      unfolding c by (rule arg_cong)
  qed
  show ?thesis
    by (intro exI conjI) (rule a, rule k1, rule g1, rule e1)
qed

lemma prepare_perm:
  assumes "mset ps' = mset (rows df)" and "snd (prepare pd ix df) = Inr out"
  shows "\<exists>out'. snd (prepare pd ix (df\<lparr>rows := ps'\<rparr>)) = Inr out' \<and>
           without_means out' = without_means out \<and>
           ((\<forall>xs ys. mset xs = mset ys \<longrightarrow> mean pd xs = mean pd ys) \<longrightarrow> out' = out)"
proof -
  from assms(2) obtain cs where cs: "snd (aggregate pd ix df) = Inr cs"
    and out: "out = remove_crossing cs"
    by (auto simp: prepare_aggregate split: sum.splits)
  from aggregate_perm [OF assms(1) cs] obtain cs' where
    cs': "snd (aggregate pd ix (df\<lparr>rows := ps'\<rparr>)) = Inr cs'"
    and k: "map hex cs' = map hex cs" and g: "map geometry cs' = map geometry cs"
    and e: "(\<forall>xs ys. mset xs = mset ys \<longrightarrow> mean pd xs = mean pd ys) \<longrightarrow> cs' = cs"
    by blast
  have "snd (prepare pd ix (df\<lparr>rows := ps'\<rparr>)) = Inr (remove_crossing cs')"
    by (simp add: prepare_aggregate cs')
  moreover have "without_means (remove_crossing cs') = without_means (remove_crossing cs)"
    by (simp only: without_means_remove_crossing k g)
  moreover have "(\<forall>xs ys. mset xs = mset ys \<longrightarrow> mean pd xs = mean pd ys) \<longrightarrow>
      remove_crossing cs' = remove_crossing cs"
  proof
    assume "\<forall>xs ys. mset xs = mset ys \<longrightarrow> mean pd xs = mean pd ys"
    with e have "cs' = cs" ..
    then show "remove_crossing cs' = remove_crossing cs"
      by (rule arg_cong)
  qed
  ultimately show ?thesis
    unfolding out by blast
qed



lemma halvings_numeral:
  "halvings (numeral k) r = (if r < 2 then 0 else Suc (halvings (pred_numeral k) (r / 2)))"
  by (simp add: numeral_eq_Suc)

lemma doublings_numeral:
  "doublings (numeral k) r = (if 1 \<le> r then 0 else Suc (doublings (pred_numeral k) (r * 2)))"
  by (simp add: numeral_eq_Suc)

lemma prepare_cell_mean:
  assumes "snd (prepare pd ix df) = Inr out" and "Some c \<in> set out"
  shows "points_in ix (hex c) (rows df) \<noteq> [] \<and>
         mean_value c = mean pd (map val (points_in ix (hex c) (rows df)))"
proof -
  from assms(1) obtain cs where cs: "snd (aggregate pd ix df) = Inr cs"
    and out: "out = remove_crossing cs"
    by (auto simp: prepare_aggregate split: sum.splits)
  from assms(2) out have "c \<in> set cs"
    by (auto dest: remove_crossing_mem)
  with cs show ?thesis
    by (rule cell_mean)
qed

lemma prepare_without_value_column:
  assumes "\<not> has_value df" and "hex_indices ix (rows df) = Inr hs"
  shows "prepare pd ix df = (df\<lparr>hex_col := Some hs\<rparr>, Inl KeyError)"
  using assms by (simp add: prepare_def aggregate_def)

lemmas run_prepare =
  prepare_def aggregate_def hex_indices_def point_hex_def merged_def groupby_mean_def
  polygons_def Polygon_def revert_def with_geometry_def remove_crossing_def mask_def
  span_x_exceeds_def span_y_exceeds_def bounds_def strip_ix_def checking_ix_def
  strip_boundary_def wrap_lon_def pt_def downloaded_def RESOLUTION_def
  ValueError_def KeyError_def float64_def float64_mean_def float64_compensated_def
  float64_compensated_mean_def compensated_add_def fl_def binade_def
  round_half_even_def halvings_numeral doublings_numeral Let_def

declare decimal.simps [simp del]

lemma is_digit_digit: "k < 10 \<Longrightarrow> is_digit (digit k)"
  unfolding is_digit_def digit_def by (rule nth_mem) simp

lemma decimal_digits: "list_all is_digit (decimal n)"
proof (induction n rule: decimal.induct)
  case (1 n)
  show ?case
  proof (cases "n < 10")
    case True
    then show ?thesis
      by (subst decimal.simps) (simp add: is_digit_digit)
  next
    case False
    with "1.IH" show ?thesis
      by (subst decimal.simps) (simp add: is_digit_digit)
  qed
qed

lemma decimal_length: "0 < w \<Longrightarrow> n < 10 ^ w \<Longrightarrow> length (decimal n) \<le> w"
proof (induction n arbitrary: w rule: decimal.induct)
  case (1 n)
  show ?case
  proof (cases "n < 10")
    case True
    with "1.prems" show ?thesis
      by (subst decimal.simps) simp
  next
    case False
    from "1.prems" obtain v where w: "w = Suc v"
      by (cases w) auto
    have v: "0 < v"
    proof (rule gr0I)
      assume "v = 0"
      with "1.prems" w False show False
        by simp
    qed
    from "1.prems" w have "n div 10 < 10 ^ v"
      by (simp add: less_mult_imp_div_less mult.commute)
    with "1.IH" [OF False v] have "length (decimal (n div 10)) \<le> v"
      by simp
    with False w show ?thesis
      by (subst decimal.simps) simp
  qed
qed

lemma zero_pad_length: "0 < w \<Longrightarrow> n < 10 ^ w \<Longrightarrow> length (zero_pad w n) = w"
  using decimal_length [of w n] by (simp add: zero_pad_def)

lemma zeros_digits: "list_all is_digit (replicate k (CHR ''0''))"
  by (simp add: list_all_iff is_digit_def)

lemma zero_pad_digits: "list_all is_digit (zero_pad w n)"
  unfolding zero_pad_def list_all_append using zeros_digits decimal_digits by blast

lemma iso_date_shape:
  assumes "length a = 4" "length b = 2" "length c = 2"
    and "list_all is_digit a" "list_all is_digit b" "list_all is_digit c"
  shows "iso_date (a @ ''-'' @ b @ ''-'' @ c)"
  using assms by (simp add: iso_date_def nth_append)

lemma days_in_month_bounds: "28 \<le> days_in_month yr m" "days_in_month yr m \<le> 31"
  by (simp_all add: days_in_month_def)

lemma iso_date_isoformat:
  assumes "valid_date d"
  shows "iso_date (date_isoformat d)"
proof -
  from assms have "year d < 10 ^ 4" "month d < 10 ^ 2"
    by (simp_all add: valid_date_def MAXYEAR_def)
  moreover from assms days_in_month_bounds(2) [of "year d" "month d"] have "day d < 10 ^ 2"
    by (simp add: valid_date_def)
  ultimately show ?thesis
    unfolding date_isoformat_def
    by (intro iso_date_shape zero_pad_length zero_pad_digits) simp_all
qed

lemma date_isoformat_length: "valid_date d \<Longrightarrow> length (date_isoformat d) = 10"
  using iso_date_isoformat [of d] by (simp add: iso_date_def)

lemma iso_time_shape:
  assumes "length a = 2" "length b = 2" "length c = 2"
    and "list_all is_digit a" "list_all is_digit b" "list_all is_digit c"
    and "f = [] \<or> (length f = 6 \<and> list_all is_digit f)"
  shows "iso_time (a @ '':'' @ b @ '':'' @ c @ (if f = [] then [] else ''.'' @ f))"
  using assms by (auto simp: iso_time_def nth_append)

lemma iso_time_isoformat:
  assumes "valid_time t"
  shows "iso_time (time_isoformat t)"
proof -
  from assms have l: "length (zero_pad 2 (hour t)) = 2" "length (zero_pad 2 (minute t)) = 2"
    "length (zero_pad 2 (second t)) = 2" "length (zero_pad 6 (microsecond t)) = 6"
    by (simp_all add: valid_time_def zero_pad_length)
  show ?thesis
  proof (cases "microsecond t = 0")
    case True
    then show ?thesis
      using iso_time_shape [OF l(1-3) zero_pad_digits zero_pad_digits zero_pad_digits, of "[]"]
      by (simp add: time_isoformat_def)
  next
    case False
    have "zero_pad 6 (microsecond t) \<noteq> []"
      using l(4) by auto
    then show ?thesis
      using False iso_time_shape [OF l(1-3) zero_pad_digits zero_pad_digits zero_pad_digits,
          of "zero_pad 6 (microsecond t)"] l(4) zero_pad_digits [of 6 "microsecond t"]
      by (simp add: time_isoformat_def)
  qed
qed

lemma iso_datetime_isoformat:
  assumes "valid_date d" "valid_time t"
  shows "iso_datetime (isoformat (DateTime d t))"
  using iso_date_isoformat [OF assms(1)] date_isoformat_length [OF assms(1)]
    iso_time_isoformat [OF assms(2)]
  by (simp add: iso_datetime_def nth_append)

lemma month_cases:
  assumes "1 \<le> m" "m < (12::nat)"
  shows "m = 1 \<or> m = 2 \<or> m = 3 \<or> m = 4 \<or> m = 5 \<or> m = 6 \<or> m = 7 \<or> m = 8 \<or> m = 9 \<or> m = 10 \<or> m = 11"
  using assms by arith

lemma days_before_next_month:
  assumes "1 \<le> m" "m < 12"
  shows "days_before_month yr (m + 1) = days_before_month yr m + days_in_month yr m"
  using month_cases [OF assms]
  by (elim disjE) (simp_all add: days_before_month_def days_in_month_def)

lemma mod_facts:
  "Suc k mod 100 = 0 \<Longrightarrow> Suc k mod 4 = 0"
  "Suc k mod 400 = 0 \<Longrightarrow> Suc k mod 100 = 0"
  by presburger+

lemma next_year_arith:
  fixes A B C A' B' C' l k :: nat
  assumes "B \<le> A" and "B' \<le> A'" and "A' - B' + C' = A - B + C + l"
  shows "365 * Suc k + A' - B' + C' = 365 * k + A - B + C + (334 + l) + 31"
proof -
  have "365 * Suc k + A' - B' + C' = 365 * k + 365 + (A' - B' + C')"
    using assms(2) by simp
  also have "\<dots> = 365 * k + 365 + (A - B + C + l)"
    by (simp only: assms(3))
  also have "\<dots> = 365 * k + A - B + C + (334 + l) + 31"
    using assms(1) by simp
  finally show ?thesis .
qed

lemma days_before_next_year:
  assumes "1 \<le> yr"
  shows "days_before_year (yr + 1) = days_before_year yr + days_before_month yr 12 + 31"
proof -
  obtain k where k: "yr = Suc k"
    using assms by (cases yr) auto
  define l :: nat where "l = (if is_leap (Suc k) then 1 else 0)"
  have a: "k div 100 \<le> k div 4" and a': "Suc k div 100 \<le> Suc k div 4"
    by (simp_all add: div_le_mono2)
  have h: "Suc k div 4 - Suc k div 100 + Suc k div 400 = k div 4 - k div 100 + k div 400 + l"
    unfolding l_def using a mod_facts [of k] by (auto simp: div_Suc is_leap_def)
  have m: "days_before_month (Suc k) 12 = 334 + l"
    by (simp add: days_before_month_def l_def)
  have y: "days_before_year (Suc k + 1) = 365 * Suc k + Suc k div 4 - Suc k div 100 + Suc k div 400"
    and y': "days_before_year (Suc k) = 365 * k + k div 4 - k div 100 + k div 400"
    by (simp_all add: days_before_year_def)
  show ?thesis
    unfolding k y y' m by (rule next_year_arith [OF a a' h])
qed

lemma add_day_last: "add_day last_day = Inl OverflowError"
  by (simp add: add_day_def last_day_def days_in_month_def MAXYEAR_def)

lemma add_day_next:
  assumes "valid_date d" and "d \<noteq> last_day"
  shows "\<exists>d'. add_day d = Inr d' \<and> valid_date d' \<and> toordinal d' = toordinal d + 1"
proof -
  consider (day) "day d < days_in_month (year d) (month d)"
    | (month) "day d = days_in_month (year d) (month d)" "month d < 12"
    | (year) "day d = days_in_month (year d) (month d)" "month d = 12" "year d < MAXYEAR"
    | (last) "day d = days_in_month (year d) (month d)" "month d = 12" "year d = MAXYEAR"
    using assms(1) unfolding valid_date_def by linarith
  then show ?thesis
  proof cases
    case day
    with assms(1) show ?thesis
      by (simp add: add_day_def valid_date_def toordinal_def)
  next
    case month
    with assms(1) days_before_next_month [of "month d" "year d"]
      days_in_month_bounds(1) [of "year d" "month d + 1"]
    show ?thesis
      by (simp add: add_day_def valid_date_def toordinal_def)
  next
    case year
    with assms(1) days_before_next_year [of "year d"]
    show ?thesis
      by (simp add: add_day_def valid_date_def toordinal_def days_in_month_def
          days_before_month_def)
  next
    case last
    then have "d = last_day"
      by (cases d) (simp add: last_day_def days_in_month_def MAXYEAR_def)
    with assms(2) show ?thesis
      by simp
  qed
qed

lemma plus_one_day_next:
  assumes "valid_moment d" and "date_of d \<noteq> last_day"
  shows "\<exists>d'. plus_one_day d = Inr d' \<and> valid_moment d' \<and>
           toordinal (date_of d') = toordinal (date_of d) + 1 \<and> time_of d' = time_of d"
proof (cases d)
  case (Date a)
  with assms add_day_next [of a] show ?thesis
    by auto
next
  case (DateTime a t)
  with assms add_day_next [of a] show ?thesis
    by auto
qed

lemma plus_one_day_last: "date_of d = last_day \<Longrightarrow> plus_one_day d = Inl OverflowError"
  by (cases d) (simp_all add: add_day_last)

lemma iso_isoformat:
  assumes "valid_moment d"
  shows "(time_of d = None \<longrightarrow> iso_date (isoformat d)) \<and>
         (time_of d \<noteq> None \<longrightarrow> iso_datetime (isoformat d))"
proof (cases d)
  case (Date a)
  with assms show ?thesis
    by (simp add: iso_date_isoformat)
next
  case (DateTime a t)
  with assms iso_datetime_isoformat [of a t] show ?thesis
    by (simp del: isoformat.simps)
qed

lemmas run_format =
  date_isoformat_def time_isoformat_def zero_pad_def decimal.simps digit_def add_day_def
  days_in_month_def is_leap_def MAXYEAR_def valid_date_def valid_time_def last_day_def
  request_url_def cache_filename_def

section \<open>Polygon reconstruction\<close>



section \<open>Grouping and averaging\<close>

text \<open>
  C1, as the code has it. Every cell of the frame that \<^verbatim>\<open>prepare\<close> returns holds
  the mean, as pandas computes it, of the values of exactly the input points whose
  (latitude, longitude) the indexer maps to the key of the cell, taken in the order of the
  input. There is at least one such point.
\<close>

theorem prepare_mean_value:
  assumes "snd (prepare pd ix df) = Inr out" and "Some c \<in> set out"
  shows "points_in ix (hex c) (rows df) \<noteq> [] \<and>
         mean_value c = mean pd (map val (points_in ix (hex c) (rows df)))"
  using assms by (rule prepare_cell_mean)

theorem prepare_mean_value_witness:
  "snd (prepare float64 strip_ix (downloaded [pt 0 10 10, pt 0 3 7, pt 0 10.5 20])) =
     Inr [Some \<lparr>hex = 2, mean_value = 7,
                geometry = Polygon_of [(3, - 90), (3, 90), (5, 90), (5, - 90)]\<rparr>,
          Some \<lparr>hex = 5, mean_value = 15,
                geometry = Polygon_of [(9, - 90), (9, 90), (11, 90), (11, - 90)]\<rparr>] \<and>
   map val (points_in strip_ix 5 [pt 0 10 10, pt 0 3 7, pt 0 10.5 20]) = [10, 20] \<and>
   mean float64 [10, 20] = 15"
proof -
  let ?c = "\<lparr>hex = 5::int, mean_value = 15::real,
             geometry = Polygon_of [(9, - 90), (9, 90), (11, 90), (11, - 90)]\<rparr>"
  let ?out = "[Some \<lparr>hex = 2::int, mean_value = 7::real,
                geometry = Polygon_of [(3, - 90), (3, 90), (5, 90), (5, - 90)]\<rparr>, Some ?c]"
  have r: "snd (prepare float64 strip_ix (downloaded [pt 0 10 10, pt 0 3 7, pt 0 10.5 20])) =
             Inr ?out"
    by (simp add: run_prepare)
  have m: "Some ?c \<in> set ?out"
    by simp
  have p: "map val (points_in strip_ix 5 [pt 0 10 10, pt 0 3 7, pt 0 10.5 20]) = [10, 20]"
    by (simp add: points_in_def run_prepare)
  have d: "rows (downloaded [pt 0 10 10, pt 0 3 7, pt 0 10.5 20]) =
             [pt 0 10 10, pt 0 3 7, pt 0 10.5 20]"
    by (simp add: downloaded_def)
  have h: "hex ?c = 5" "mean_value ?c = 15"
    by simp_all
  from prepare_mean_value [OF r m] have "mean float64 [10, 20] = 15"
    unfolding d h p by (rule conjunct2 [THEN sym])
  with r p show ?thesis
    by (intro conjI)
qed

text \<open>
  The claim as the specification states it fails on float64 values: three points of one
  cell with the values 1e16, 1 and -1e16 have the arithmetic mean 1/3, and the mean in
  the prepared frame is 0, with the plain and with the compensated sum, since 1e16 + 1
  rounds to 1e16.
\<close>

theorem prepare_mean_rounds:
  "snd (prepare float64 strip_ix
          (downloaded [pt 0 10 (10 ^ 16), pt 0 10.5 1, pt 0 10 (- (10 ^ 16))])) =
     Inr [Some \<lparr>hex = 5, mean_value = 0,
                geometry = Polygon_of [(9, - 90), (9, 90), (11, 90), (11, - 90)]\<rparr>] \<and>
   snd (prepare float64_compensated strip_ix
          (downloaded [pt 0 10 (10 ^ 16), pt 0 10.5 1, pt 0 10 (- (10 ^ 16))])) =
     Inr [Some \<lparr>hex = 5, mean_value = 0,
                geometry = Polygon_of [(9, - 90), (9, 90), (11, 90), (11, - 90)]\<rparr>] \<and>
   arithmetic_mean (image_mset val (mset (points_in strip_ix 5
      [pt 0 10 (10 ^ 16), pt 0 10.5 1, pt 0 10 (- (10 ^ 16))]))) = 1 / 3"
  by (simp add: run_prepare points_in_def arithmetic_mean_def)

text \<open>
  C5. Before any row is masked, the keys of the aggregated cells are exactly the cells
  that the input points occupy, each key once. The frame that \<^verbatim>\<open>prepare\<close>
  returns is this list with the crossing cells masked, so the keys of its rows that are
  not masked are distinct as well.
\<close>

theorem aggregate_cell_keys:
  assumes "snd (aggregate pd ix df) = Inr cs"
  shows "set (map hex cs) = occupied ix (rows df) \<and> distinct (map hex cs) \<and>
         snd (prepare pd ix df) = Inr (remove_crossing cs) \<and>
         distinct (map hex (present (remove_crossing cs))) \<and>
         set (map hex (present (remove_crossing cs))) \<subseteq> occupied ix (rows df)"
proof -
  from assms obtain hs gs where hs: "hex_indices ix (rows df) = Inr hs"
    and gs: "polygons ix (map fst (merged pd hs (rows df))) = Inr gs"
    and c: "cs = with_geometry (merged pd hs (rows df)) gs"
    by (rule aggregate_Inr)
  have len: "length gs = length (merged pd hs (rows df))"
    using polygons_length [OF gs] by simp
  have "length hs = length (rows df)"
    using comprehension_InrD [OF hs [unfolded hex_indices_def]] by (metis length_map)
  then have z: "map fst (zip hs (map val (rows df))) = hs"
    by simp
  have "map hex cs = map fst (merged pd hs (rows df))"
    unfolding c by (rule with_geometry_keys [OF len])
  then have keys: "map hex cs = sort (remdups hs)"
    by (simp add: merged_def keys_groupby_mean z)
  have s: "set (map hex cs) = occupied ix (rows df)"
    by (simp add: keys hex_indices_set [OF hs])
  have d: "distinct (map hex cs)"
    by (simp add: keys)
  have p: "snd (prepare pd ix df) = Inr (remove_crossing cs)"
    by (simp add: prepare_aggregate assms)
  have d': "distinct (map hex (present (remove_crossing cs)))"
    using d by (simp add: present_remove_crossing distinct_map_filter)
  have "set (map hex (present (remove_crossing cs))) \<subseteq> set (map hex cs)"
    by (auto simp: present_remove_crossing)
  with s d p d' show ?thesis
    by simp
qed

theorem aggregate_cell_keys_witness:
  "snd (aggregate float64 strip_ix (downloaded [pt 100 10 1, pt 0 10.5 20, pt 0 3 7])) =
     Inr [\<lparr>hex = 2, mean_value = 7,
           geometry = Polygon_of [(3, - 90), (3, 90), (5, 90), (5, - 90)]\<rparr>,
          \<lparr>hex = 5, mean_value = 21 / 2,
           geometry = Polygon_of [(9, - 90), (9, 90), (11, 90), (11, - 90)]\<rparr>] \<and>
   occupied strip_ix [pt 100 10 1, pt 0 10.5 20, pt 0 3 7] = {2, 5}"
proof -
  let ?cs = "[\<lparr>hex = 2::int, mean_value = 7,
                geometry = Polygon_of [(3, - 90), (3, 90), (5, 90), (5, - 90)]\<rparr>,
              \<lparr>hex = 5, mean_value = 21 / 2,
                geometry = Polygon_of [(9, - 90), (9, 90), (11, 90), (11, - 90)]\<rparr>]"
  have r: "snd (aggregate float64 strip_ix (downloaded [pt 100 10 1, pt 0 10.5 20, pt 0 3 7])) = Inr ?cs"
    by (simp add: run_prepare)
  from aggregate_cell_keys [OF r] r show ?thesis
    by (simp add: downloaded_def)
qed

text \<open>
  C6, as the code has it. An input and a permutation of it are prepared to frames with
  the same cells: the same keys in the same order, with the same geometry and the same
  rows masked (or both calls raise). The mean value of a cell is the mean, as pandas
  computes it, of the values of the cell in the order of the permuted input; the two
  frames are equal whenever that mean does not depend on the order of the values.
\<close>

theorem prepare_permutation:
  assumes "mset ps' = mset (rows df)"
  shows "isl (snd (prepare pd ix (df\<lparr>rows := ps'\<rparr>))) = isl (snd (prepare pd ix df)) \<and>
         (\<forall>out out'. snd (prepare pd ix df) = Inr out \<longrightarrow>
            snd (prepare pd ix (df\<lparr>rows := ps'\<rparr>)) = Inr out' \<longrightarrow>
            without_means out' = without_means out \<and>
            (\<forall>c'. Some c' \<in> set out' \<longrightarrow>
               mean_value c' = mean pd (map val (points_in ix (hex c') ps'))) \<and>
            ((\<forall>xs ys. mset xs = mset ys \<longrightarrow> mean pd xs = mean pd ys) \<longrightarrow> out' = out))"
proof -
  let ?df' = "df\<lparr>rows := ps'\<rparr>"
  have rev: "mset (rows df) = mset (rows ?df')" "?df'\<lparr>rows := rows df\<rparr> = df"
    using assms by simp_all
  have 1: "isl (snd (prepare pd ix ?df')) = isl (snd (prepare pd ix df))"
  proof (cases "snd (prepare pd ix df)")
    case (Inr out)
    from prepare_perm [OF assms Inr] obtain out1 where "snd (prepare pd ix ?df') = Inr out1"
      by (elim exE conjE)
    with Inr show ?thesis
      by simp
  next
    case l: (Inl e)
    show ?thesis
    proof (cases "snd (prepare pd ix ?df')")
      case (Inl e')
      with l show ?thesis
        by simp
    next
      case (Inr out')
      from prepare_perm [OF rev(1) Inr] obtain out0
        where "snd (prepare pd ix (?df'\<lparr>rows := rows df\<rparr>)) = Inr out0"
        by (elim exE conjE)
      then have "snd (prepare pd ix df) = Inr out0"
        by (simp only: rev(2))
      with l show ?thesis
        by simp
    qed
  qed
  have 2: "without_means out' = without_means out"
    "(\<forall>xs ys. mset xs = mset ys \<longrightarrow> mean pd xs = mean pd ys) \<longrightarrow> out' = out"
    if out: "snd (prepare pd ix df) = Inr out" and out': "snd (prepare pd ix ?df') = Inr out'"
    for out out'
  proof -
    from prepare_perm [OF assms out] obtain out1 where a: "snd (prepare pd ix ?df') = Inr out1"
      and b: "without_means out1 = without_means out"
      and c: "(\<forall>xs ys. mset xs = mset ys \<longrightarrow> mean pd xs = mean pd ys) \<longrightarrow> out1 = out"
      by (elim exE conjE)
    from a out' have eq: "out1 = out'"
      by simp
    from b show "without_means out' = without_means out"
      unfolding eq .
    from c show "(\<forall>xs ys. mset xs = mset ys \<longrightarrow> mean pd xs = mean pd ys) \<longrightarrow> out' = out"
      unfolding eq .
  qed
  have 3: "mean_value c' = mean pd (map val (points_in ix (hex c') ps'))"
    if out': "snd (prepare pd ix ?df') = Inr out'" and c': "Some c' \<in> set out'"
    for out' c'
    using prepare_cell_mean [OF out' c'] by simp
  show ?thesis
  proof (intro conjI allI impI)
    show "isl (snd (prepare pd ix ?df')) = isl (snd (prepare pd ix df))"
      by (rule 1)
  next
    fix out out'
    assume "snd (prepare pd ix df) = Inr out" and "snd (prepare pd ix ?df') = Inr out'"
    then show "without_means out' = without_means out"
      by (rule 2(1))
  next
    fix out out' c'
    assume "snd (prepare pd ix ?df') = Inr out'" and "Some c' \<in> set out'"
    then show "mean_value c' = mean pd (map val (points_in ix (hex c') ps'))"
      by (rule 3)
  next
    fix out out'
    assume o: "snd (prepare pd ix df) = Inr out" and o': "snd (prepare pd ix ?df') = Inr out'"
      and m: "\<forall>xs ys. mset xs = mset ys \<longrightarrow> mean pd xs = mean pd ys"
    from 2(2) [OF o o'] m show "out' = out"
      by (rule mp)
  qed
qed

theorem prepare_permutation_witness:
  "snd (prepare float64 strip_ix (downloaded [pt 100 10 1, pt 0 10.5 20, pt 0 3 7])) =
     Inr [Some \<lparr>hex = 2, mean_value = 7,
                geometry = Polygon_of [(3, - 90), (3, 90), (5, 90), (5, - 90)]\<rparr>,
          Some \<lparr>hex = 5, mean_value = 21 / 2,
                geometry = Polygon_of [(9, - 90), (9, 90), (11, 90), (11, - 90)]\<rparr>] \<and>
   without_means
     [Some \<lparr>hex = 2, mean_value = 7,
            geometry = Polygon_of [(3, - 90), (3, 90), (5, 90), (5, - 90)]\<rparr>,
      Some \<lparr>hex = 5::int, mean_value = 21 / 2 :: real,
            geometry = Polygon_of [(9, - 90), (9, 90), (11, 90), (11, - 90)]\<rparr>] =
     [Some (2, Polygon_of [(3, - 90), (3, 90), (5, 90), (5, - 90)]),
      Some (5, Polygon_of [(9, - 90), (9, 90), (11, 90), (11, - 90)])] \<and>
   without_means (projr (snd (prepare float64 strip_ix
      (downloaded [pt 0 3 7, pt 100 10 1, pt 0 10.5 20])))) =
     [Some (2, Polygon_of [(3, - 90), (3, 90), (5, 90), (5, - 90)]),
      Some (5, Polygon_of [(9, - 90), (9, 90), (11, 90), (11, - 90)])]"
proof -
  let ?df = "downloaded [pt 100 10 1, pt 0 10.5 20, pt 0 3 7]"
  let ?ps' = "[pt 0 3 7, pt 100 10 1, pt 0 10.5 20]"
  let ?out = "[Some \<lparr>hex = 2::int, mean_value = 7::real,
                geometry = Polygon_of [(3, - 90), (3, 90), (5, 90), (5, - 90)]\<rparr>,
          Some \<lparr>hex = 5, mean_value = 21 / 2,
                geometry = Polygon_of [(9, - 90), (9, 90), (11, 90), (11, - 90)]\<rparr>]"
  have m: "mset ?ps' = mset (rows ?df)"
    by (simp add: downloaded_def)
  have d: "?df\<lparr>rows := ?ps'\<rparr> = downloaded ?ps'"
    by (simp add: downloaded_def)
  have r: "snd (prepare float64 strip_ix ?df) = Inr ?out"
    by (simp add: run_prepare)
  have w: "without_means ?out =
     [Some (2, Polygon_of [(3, - 90), (3, 90), (5, 90), (5, - 90)]),
      Some (5, Polygon_of [(9, - 90), (9, 90), (11, 90), (11, - 90)])]"
    by (simp add: without_means_def)
  note t = prepare_permutation [OF m, of float64 strip_ix, unfolded d]
  from t r have "\<not> isl (snd (prepare float64 strip_ix (downloaded ?ps')))"
    by (simp only: sum.disc simp_thms)
  then obtain out' where r': "snd (prepare float64 strip_ix (downloaded ?ps')) = Inr out'"
    by (cases "snd (prepare float64 strip_ix (downloaded ?ps'))") auto
  from t r r' have "without_means out' = without_means ?out"
    by blast
  with r r' w show ?thesis
    by (simp only: sum.sel simp_thms)
qed

text \<open>
  The claim as the specification states it fails on float64 values: the same three
  points of one cell, in two orders, are prepared to the means 0 and 1/3 (rounded to a
  double), with the plain and with the compensated sum.
\<close>

theorem prepare_order_dependent:
  "snd (prepare float64 strip_ix
          (downloaded [pt 0 10 (10 ^ 16), pt 0 10.5 1, pt 0 10 (- (10 ^ 16))])) =
     Inr [Some \<lparr>hex = 5, mean_value = 0,
                geometry = Polygon_of [(9, - 90), (9, 90), (11, 90), (11, - 90)]\<rparr>] \<and>
   snd (prepare float64 strip_ix
          (downloaded [pt 0 10 (10 ^ 16), pt 0 10 (- (10 ^ 16)), pt 0 10.5 1])) =
     Inr [Some \<lparr>hex = 5, mean_value = 6004799503160661 / 18014398509481984,
                geometry = Polygon_of [(9, - 90), (9, 90), (11, 90), (11, - 90)]\<rparr>] \<and>
   snd (prepare float64_compensated strip_ix
          (downloaded [pt 0 10 (10 ^ 16), pt 0 10.5 1, pt 0 10 (- (10 ^ 16))])) =
     Inr [Some \<lparr>hex = 5, mean_value = 0,
                geometry = Polygon_of [(9, - 90), (9, 90), (11, 90), (11, - 90)]\<rparr>] \<and>
   snd (prepare float64_compensated strip_ix
          (downloaded [pt 0 10 (10 ^ 16), pt 0 10 (- (10 ^ 16)), pt 0 10.5 1])) =
     Inr [Some \<lparr>hex = 5, mean_value = 6004799503160661 / 18014398509481984,
                geometry = Polygon_of [(9, - 90), (9, 90), (11, 90), (11, - 90)]\<rparr>]"
  by (simp add: run_prepare)

section \<open>The antimeridian filter\<close>

text \<open>
  C2, as the code has it. \<^verbatim>\<open>DataFrame.mask\<close> does not drop a row: a cell whose
  bounding box spans more than 180 degrees of longitude or of latitude stays in the
  prepared frame as a row whose key, value and geometry are all null, and every other
  cell is retained unchanged, in place.
\<close>

theorem prepare_masks_crossing:
  assumes "snd (aggregate pd ix df) = Inr cs"
  shows "snd (prepare pd ix df) = Inr (map (\<lambda>c. if crosses (geometry c) then None else Some c) cs)"
  using assms by (simp add: prepare_aggregate remove_crossing_eq)

theorem prepare_masks_crossing_witness:
  "snd (prepare float64 strip_ix (downloaded [pt 0 179.9 1, pt 0 10 4])) =
     Inr [Some \<lparr>hex = 5, mean_value = 4,
                geometry = Polygon_of [(9, - 90), (9, 90), (11, 90), (11, - 90)]\<rparr>,
          None]"
proof -
  have r: "snd (aggregate float64 strip_ix (downloaded [pt 0 179.9 1, pt 0 10 4])) =
     Inr [\<lparr>hex = 5, mean_value = 4,
           geometry = Polygon_of [(9, - 90), (9, 90), (11, 90), (11, - 90)]\<rparr>,
          \<lparr>hex = 90, mean_value = 1,
           geometry = Polygon_of [(179, - 90), (179, 90), (- 179, 90), (- 179, - 90)]\<rparr>]"
    by (simp add: run_prepare)
  show ?thesis
    unfolding prepare_masks_crossing [OF r] by (simp add: crosses_def)
qed

text \<open>
  The claim as the specification states it, that the crossing cell is absent from the
  prepared frame, fails: the one point at latitude 0, longitude 179.9 lies in the strip
  around the antimeridian, and the prepared frame still has one row, the masked one.
\<close>

theorem prepare_keeps_masked_row:
  "snd (prepare float64 strip_ix (downloaded [pt 0 179.9 1])) = Inr [None] \<and>
   snd (prepare float64 strip_ix (downloaded [pt 0 179.9 1])) \<noteq> Inr []"
  by (simp add: run_prepare)

section \<open>Failure of \<^verbatim>\<open>prepare\<close>\<close>

text \<open>
  C3, as the code has it. \<^verbatim>\<open>prepare\<close> checks no range itself: whether a point
  out of range raises, and what, is the indexer's decision. Whenever the indexer raises
  on some input point, the exception of the first such point leaves \<^verbatim>\<open>prepare\<close>
  at once: it reaches the caller, no frame is returned and the caller's frame is as it
  was.
\<close>

theorem prepare_failure:
  assumes "rows df = ps1 @ p # ps2"
    and "\<forall>q\<in>set ps1. \<not> isl (point_hex ix q)"
    and "point_hex ix p = Inl e"
  shows "prepare pd ix df = (df, Inl e)"
proof -
  have "hex_indices ix (rows df) = Inl e"
    unfolding hex_indices_def assms(1) using assms(2,3) by (rule comprehension_first_failure)
  then show ?thesis
    by (simp add: prepare_def aggregate_def)
qed

theorem prepare_failure_witness:
  "prepare float64 checking_ix (downloaded [pt 0 10.5 20, pt 100 10 1, pt 0 3 7]) =
     (downloaded [pt 0 10.5 20, pt 100 10 1, pt 0 3 7], Inl (Error ''InvalidPointError''))"
proof -
  have 1: "rows (downloaded [pt 0 10.5 20, pt 100 10 1, pt 0 3 7]) =
             [pt 0 10.5 20] @ pt 100 10 1 # [pt 0 3 7]"
    by (simp add: downloaded_def)
  have 2: "\<forall>q\<in>set [pt 0 10.5 20]. \<not> isl (point_hex checking_ix q)"
    by (simp add: run_prepare)
  have 3: "point_hex checking_ix (pt 100 10 1) = Inl (Error ''InvalidPointError'')"
    by (simp add: run_prepare)
  show ?thesis
    by (rule prepare_failure [OF 1 2 3])
qed

text \<open>
  The claim as the specification states it fails: with an indexer that answers for every
  pair of coordinates, a point at latitude 100 is binned like any other and
  \<^verbatim>\<open>prepare\<close> returns a frame.
\<close>

theorem prepare_accepts_latitude_100:
  "snd (prepare float64 strip_ix (downloaded [pt 100 10 1])) =
     Inr [Some \<lparr>hex = 5, mean_value = 1,
                geometry = Polygon_of [(9, - 90), (9, 90), (11, 90), (11, - 90)]\<rparr>]"
  by (simp add: run_prepare)

section \<open>The caller's frame\<close>




section \<open>The request of the fetcher\<close>

text \<open>
  C9, as the code has it. For every day but 31 December 9999,
  \<^verbatim>\<open>download_points\<close> makes one call of \<^verbatim>\<open>geopandas.read_file\<close>, on the
  URL \<^verbatim>\<open>{url}/api/v2/{product}/geo.json?begin={day}&end={day + 1}\<close>, and returns
  what the call gives. The end is the next calendar day at the same time of day. Both
  stamps are written by \<^verbatim>\<open>isoformat()\<close>: for a date, as the command line passes
  it, they are calendar dates \<^verbatim>\<open>YYYY-MM-DD\<close>; for a datetime they are date-times.
  On 31 December 9999 the addition of the day raises \<^verbatim>\<open>OverflowError\<close> and no
  request is made.
\<close>

theorem download_points_request:
  assumes "valid_moment d"
  shows
    "(date_of d \<noteq> last_day \<longrightarrow>
        (\<exists>d'. plus_one_day d = Inr d' \<and> valid_moment d' \<and>
           toordinal (date_of d') = toordinal (date_of d) + 1 \<and> time_of d' = time_of d \<and>
           download_points gp url product d w =
             (w\<lparr>trace := trace w @
                 [ReadUrl (url @ ''/api/v2/'' @ product @ ''/geo.json?begin='' @ isoformat d @
                           ''&end='' @ isoformat d')]\<rparr>,
              read_url gp (url @ ''/api/v2/'' @ product @ ''/geo.json?begin='' @ isoformat d @
                           ''&end='' @ isoformat d')) \<and>
           (time_of d = None \<longrightarrow> iso_date (isoformat d) \<and> iso_date (isoformat d')) \<and>
           (time_of d \<noteq> None \<longrightarrow> iso_datetime (isoformat d) \<and> iso_datetime (isoformat d')))) \<and>
     (date_of d = last_day \<longrightarrow> download_points gp url product d w = (w, Inl OverflowError))"
proof (cases "date_of d = last_day")
  case True
  then show ?thesis
    by (simp add: download_points_def plus_one_day_last)
next
  case False
  with assms obtain d' where d': "plus_one_day d = Inr d'" "valid_moment d'"
    "toordinal (date_of d') = toordinal (date_of d) + 1" "time_of d' = time_of d"
    using plus_one_day_next by blast
  have "download_points gp url product d w =
             (w\<lparr>trace := trace w @
                 [ReadUrl (url @ ''/api/v2/'' @ product @ ''/geo.json?begin='' @ isoformat d @
                           ''&end='' @ isoformat d')]\<rparr>,
              read_url gp (url @ ''/api/v2/'' @ product @ ''/geo.json?begin='' @ isoformat d @
                           ''&end='' @ isoformat d'))"
    by (simp add: download_points_def d'(1) emit_def request_url_def)
  with False d' iso_isoformat [OF assms] iso_isoformat [OF d'(2)] show ?thesis
    by auto
qed

theorem download_points_request_witness:
  "download_points example_gp ''https://api.v2.emissions-api.org'' ''carbonmonoxide''
     (DateTime \<lparr>year = 2020, month = 2, day = 28\<rparr>
        \<lparr>hour = 0, minute = 0, second = 0, microsecond = 0\<rparr>) empty_world =
     (\<lparr>files = Map.empty,
       trace = [ReadUrl (''https://api.v2.emissions-api.org/api/v2/carbonmonoxide/geo.json'' @
                         ''?begin=2020-02-28T00:00:00&end=2020-02-29T00:00:00'')]\<rparr>,
      Inr (downloaded [pt 0 10 10, pt 0 10.5 20])) \<and>
   download_points example_gp ''https://api.v2.emissions-api.org'' ''carbonmonoxide''
     (DateTime last_day \<lparr>hour = 12, minute = 0, second = 0, microsecond = 0\<rparr>) empty_world =
     (empty_world, Inl OverflowError)"
proof -
  let ?d = "DateTime \<lparr>year = 2020, month = 2, day = 28\<rparr>
              \<lparr>hour = 0, minute = 0, second = 0, microsecond = 0\<rparr>"
  let ?l = "DateTime last_day \<lparr>hour = 12, minute = 0, second = 0, microsecond = 0\<rparr>"
  have v: "valid_moment ?d"
    by (simp add: run_format)
  have n: "date_of ?d \<noteq> last_day"
    by (simp add: run_format)
  have p: "plus_one_day ?d = Inr (DateTime \<lparr>year = 2020, month = 2, day = 29\<rparr>
              \<lparr>hour = 0, minute = 0, second = 0, microsecond = 0\<rparr>)"
    by (simp add: run_format)
  have v': "valid_moment ?l"
    by (simp add: run_format)
  from download_points_request [OF v, of example_gp "''https://api.v2.emissions-api.org''"
      "''carbonmonoxide''" empty_world] n p
  have 1: "download_points example_gp ''https://api.v2.emissions-api.org'' ''carbonmonoxide''
     ?d empty_world =
     (\<lparr>files = Map.empty,
       trace = [ReadUrl (''https://api.v2.emissions-api.org/api/v2/carbonmonoxide/geo.json'' @
                         ''?begin=2020-02-28T00:00:00&end=2020-02-29T00:00:00'')]\<rparr>,
      Inr (downloaded [pt 0 10 10, pt 0 10.5 20]))"
    by (simp add: run_format example_gp_def empty_world_def)
  from download_points_request [OF v', of example_gp "''https://api.v2.emissions-api.org''"
      "''carbonmonoxide''" empty_world]
  have 2: "download_points example_gp ''https://api.v2.emissions-api.org'' ''carbonmonoxide''
     ?l empty_world = (empty_world, Inl OverflowError)"
    by simp
  from 1 2 show ?thesis
    by (rule conjI)
qed

text \<open>
  The claim as the specification states it fails twice: for the day the command line
  passes, the stamps of the request are dates without a time, and for the last day of
  the calendar no request is made at all.
\<close>

theorem download_points_sends_dates:
  "fst (download_points example_gp ''https://api.v2.emissions-api.org'' ''carbonmonoxide''
     (Date \<lparr>year = 2019, month = 9, day = 1\<rparr>) empty_world) =
     \<lparr>files = Map.empty,
      trace = [ReadUrl (''https://api.v2.emissions-api.org/api/v2/carbonmonoxide/geo.json'' @
                        ''?begin=2019-09-01&end=2019-09-02'')]\<rparr> \<and>
   \<not> iso_datetime ''2019-09-01'' \<and> \<not> iso_datetime ''2019-09-02'' \<and>
   download_points example_gp ''https://api.v2.emissions-api.org'' ''carbonmonoxide''
     (Date \<lparr>year = 9999, month = 12, day = 31\<rparr>) empty_world =
     (empty_world, Inl OverflowError)"
  by (simp add: download_points_def emit_def run_format iso_datetime_def empty_world_def)

section \<open>\<^verbatim>\<open>get_points\<close> and the cache\<close>

text \<open>
  C8. With caching enabled: when the file \<^verbatim>\<open>cache-{product}-{day}\<close> exists,
  \<^verbatim>\<open>get_points\<close> returns what \<^verbatim>\<open>geopandas.read_file\<close> loads from it
  (or the exception of that load), without a request and without a change of the files.
  When the file does not exist, the load answers \<^verbatim>\<open>None\<close> and raises nothing;
  \<^verbatim>\<open>get_points\<close> then downloads, prepares, writes the prepared frame to the
  cache file and returns it.
\<close>

theorem get_points_cached:
  "(\<forall>content. files w (cache_filename product d) = Some content \<longrightarrow>
      get_points gp pd ix url product d True w =
        (w\<lparr>trace := trace w @ [PathExists (cache_filename product d),
                                 ReadFile (cache_filename product d)]\<rparr>,
         read_path gp content)) \<and>
   (files w (cache_filename product d) = None \<longrightarrow>
      cache_load gp product d w = (emit (PathExists (cache_filename product d)) w, Inr None) \<and>
      (\<forall>d' raw df content.
         plus_one_day d = Inr d' \<longrightarrow>
         read_url gp (request_url url product d d') = Inr raw \<longrightarrow>
         snd (prepare pd ix raw) = Inr df \<longrightarrow>
         to_file gp df = Written content \<longrightarrow>
         get_points gp pd ix url product d True w =
           (\<lparr>files = (files w)(cache_filename product d \<mapsto> content),
             trace = trace w @ [PathExists (cache_filename product d),
                                ReadUrl (request_url url product d d'),
                                ToFile (cache_filename product d)]\<rparr>,
            Inr df)))"
  by (auto simp: get_points_def cache_load_def cache_save_def download_points_def emit_def
      Let_def split: sum.splits)

theorem get_points_cached_witness:
  "get_points example_gp float64 strip_ix ''https://api.v2.emissions-api.org'' ''carbonmonoxide''
     (Date \<lparr>year = 2019, month = 9, day = 1\<rparr>) True empty_world =
     (\<lparr>files = [''cache-carbonmonoxide-2019-09-01'' \<mapsto>
          [Some \<lparr>hex = 5, mean_value = 15,
                  geometry = Polygon_of [(9, - 90), (9, 90), (11, 90), (11, - 90)]\<rparr>]],
       trace = [PathExists ''cache-carbonmonoxide-2019-09-01'',
                ReadUrl (''https://api.v2.emissions-api.org/api/v2/carbonmonoxide/geo.json'' @
                         ''?begin=2019-09-01&end=2019-09-02''),
                ToFile ''cache-carbonmonoxide-2019-09-01'']\<rparr>,
      Inr [Some \<lparr>hex = 5, mean_value = 15,
                 geometry = Polygon_of [(9, - 90), (9, 90), (11, 90), (11, - 90)]\<rparr>]) \<and>
   get_points example_gp float64 strip_ix ''https://api.v2.emissions-api.org'' ''carbonmonoxide''
     (Date \<lparr>year = 2019, month = 9, day = 1\<rparr>) True
     \<lparr>files = [''cache-carbonmonoxide-2019-09-01'' \<mapsto> [None]], trace = []\<rparr> =
     (\<lparr>files = [''cache-carbonmonoxide-2019-09-01'' \<mapsto> [None]],
       trace = [PathExists ''cache-carbonmonoxide-2019-09-01'',
                ReadFile ''cache-carbonmonoxide-2019-09-01'']\<rparr>,
      Inr [None])"
proof -
  let ?d = "Date \<lparr>year = 2019, month = 9, day = 1\<rparr>"
  let ?d' = "Date \<lparr>year = 2019, month = 9, day = 2\<rparr>"
  let ?url = "''https://api.v2.emissions-api.org''"
  let ?raw = "downloaded [pt 0 10 10, pt 0 10.5 20]"
  let ?df = "[Some \<lparr>hex = 5::int, mean_value = 15,
                geometry = Polygon_of [(9, - 90), (9, 90), (11, 90), (11, - 90)]\<rparr>]"
  let ?w = "\<lparr>files = [''cache-carbonmonoxide-2019-09-01'' \<mapsto> [None :: (int, real) cell option]],
             trace = []\<rparr>"
  have fn: "cache_filename ''carbonmonoxide'' ?d = ''cache-carbonmonoxide-2019-09-01''"
    by (simp add: run_format)
  have u: "request_url ?url ''carbonmonoxide'' ?d ?d' =
      ''https://api.v2.emissions-api.org/api/v2/carbonmonoxide/geo.json'' @
      ''?begin=2019-09-01&end=2019-09-02''"
    by (simp add: run_format)
  have miss: "files empty_world (cache_filename ''carbonmonoxide'' ?d) = None"
    by (simp add: empty_world_def)
  have p: "plus_one_day ?d = Inr ?d'"
    by (simp add: run_format)
  have r: "read_url example_gp (request_url ?url ''carbonmonoxide'' ?d ?d') = Inr ?raw"
    by (simp add: example_gp_def)
  have a: "snd (prepare float64 strip_ix ?raw) = Inr ?df"
    by (simp add: run_prepare)
  have t: "to_file example_gp ?df = Written ?df"
    by (simp add: example_gp_def)
  have hit: "files ?w (cache_filename ''carbonmonoxide'' ?d) = Some [None]"
    unfolding fn by simp
  have 1: "get_points example_gp float64 strip_ix ?url ''carbonmonoxide'' ?d True empty_world =
      (\<lparr>files = (files empty_world)(cache_filename ''carbonmonoxide'' ?d \<mapsto> ?df),
        trace = trace empty_world @ [PathExists (cache_filename ''carbonmonoxide'' ?d),
                  ReadUrl (request_url ?url ''carbonmonoxide'' ?d ?d'),
                  ToFile (cache_filename ''carbonmonoxide'' ?d)]\<rparr>, Inr ?df)"
    using get_points_cached [of empty_world "''carbonmonoxide''" ?d example_gp float64 strip_ix ?url]
      miss p r a t by blast
  have 2: "get_points example_gp float64 strip_ix ?url ''carbonmonoxide'' ?d True ?w =
      (?w\<lparr>trace := trace ?w @ [PathExists (cache_filename ''carbonmonoxide'' ?d),
                                  ReadFile (cache_filename ''carbonmonoxide'' ?d)]\<rparr>,
       read_path example_gp [None])"
    using get_points_cached [of ?w "''carbonmonoxide''" ?d example_gp float64 strip_ix ?url] hit
    by blast
  show ?thesis
    unfolding 1 2 fn u by (simp add: empty_world_def example_gp_def)
qed

text \<open>
  C10. With caching disabled \<^verbatim>\<open>get_points\<close> is the download followed by
  \<^verbatim>\<open>prepare\<close>: the files are as they were, and the only call it adds to the
  trace is the request of the download, so the cache is neither probed, read nor
  written.
\<close>

theorem get_points_uncached:
  "get_points gp pd ix url product d False w =
     (case download_points gp url product d w of
        (w', Inl e) \<Rightarrow> (w', Inl e)
      | (w', Inr raw) \<Rightarrow> (w', snd (prepare pd ix raw))) \<and>
   files (fst (get_points gp pd ix url product d False w)) = files w \<and>
   trace (fst (get_points gp pd ix url product d False w)) =
     trace w @ (case plus_one_day d of
                  Inl e \<Rightarrow> []
                | Inr d' \<Rightarrow> [ReadUrl (request_url url product d d')])"
  by (auto simp: get_points_def download_points_def emit_def split: sum.splits prod.splits)

theorem get_points_uncached_witness:
  "get_points example_gp float64 strip_ix ''https://api.v2.emissions-api.org'' ''carbonmonoxide''
     (Date \<lparr>year = 2019, month = 9, day = 1\<rparr>) False
     \<lparr>files = [''cache-carbonmonoxide-2019-09-01'' \<mapsto> [None]], trace = []\<rparr> =
     (\<lparr>files = [''cache-carbonmonoxide-2019-09-01'' \<mapsto> [None]],
       trace = [ReadUrl (''https://api.v2.emissions-api.org/api/v2/carbonmonoxide/geo.json'' @
                         ''?begin=2019-09-01&end=2019-09-02'')]\<rparr>,
      Inr [Some \<lparr>hex = 5, mean_value = 15,
                 geometry = Polygon_of [(9, - 90), (9, 90), (11, 90), (11, - 90)]\<rparr>])"
proof -
  let ?d = "Date \<lparr>year = 2019, month = 9, day = 1\<rparr>"
  let ?w = "\<lparr>files = [''cache-carbonmonoxide-2019-09-01'' \<mapsto> [None :: (int, real) cell option]],
             trace = []\<rparr>"
  have d: "download_points example_gp ''https://api.v2.emissions-api.org'' ''carbonmonoxide''
             ?d ?w =
      (\<lparr>files = [''cache-carbonmonoxide-2019-09-01'' \<mapsto> [None]],
        trace = [ReadUrl (''https://api.v2.emissions-api.org/api/v2/carbonmonoxide/geo.json'' @
                          ''?begin=2019-09-01&end=2019-09-02'')]\<rparr>,
       Inr (downloaded [pt 0 10 10, pt 0 10.5 20]))"
    by (simp add: download_points_def emit_def run_format example_gp_def)
  have a: "snd (prepare float64 strip_ix (downloaded [pt 0 10 10, pt 0 10.5 20])) =
      Inr [Some \<lparr>hex = 5, mean_value = 15,
                 geometry = Polygon_of [(9, - 90), (9, 90), (11, 90), (11, - 90)]\<rparr>]"
    by (simp add: run_prepare)
  have g: "get_points example_gp float64 strip_ix ''https://api.v2.emissions-api.org''
             ''carbonmonoxide'' ?d False ?w =
      (case download_points example_gp ''https://api.v2.emissions-api.org'' ''carbonmonoxide''
              ?d ?w of
         (w', Inl e) \<Rightarrow> (w', Inl e)
       | (w', Inr raw) \<Rightarrow> (w', snd (prepare float64 strip_ix raw)))"
    using get_points_uncached [of example_gp float64 strip_ix "''https://api.v2.emissions-api.org''"
      "''carbonmonoxide''" ?d ?w] by (rule conjunct1)
  show ?thesis
    unfolding g d by (simp only: a prod.case sum.case)
qed

end
